theory Spec2Isabelle
  imports Main "HOL-Library.AList"
begin

section \<open>Python values and exceptions\<close>

text \<open>
  A Python \<open>dict\<close> with string keys is an association list in insertion order;
  \<open>d[k] = v\<close> is \<open>AList.update k v d\<close> (an existing key keeps its position, a new
  key is appended) and \<open>d.items()\<close> walks the list from its head.
\<close>

type_synonym 'v dict = "(string \<times> 'v) list"

text \<open>
  The exceptions the ingestion code can meet. \<open>Timeout\<close> and \<open>HTTPError\<close> are the
  classes of \<open>requests.exceptions\<close>; \<open>OtherRequestException\<close> stands for every other
  \<open>RequestException\<close> (connection errors, redirects, invalid URLs). \<open>OSError\<close> stands
  for an operating-system error that is not a \<open>FileNotFoundError\<close>, and
  \<open>ValueError\<close> for a value error that is not a \<open>UnicodeDecodeError\<close>.
\<close>

datatype exn =
    FileNotFoundError | YAMLError | OSError
  | AttributeError | TypeError | KeyError | ValueError
  | UnicodeDecodeError | OverflowError
  | Timeout | HTTPError | OtherRequestException

text \<open>The class hierarchy, as \<open>isinstance\<close> sees it: every \<open>RequestException\<close> is an
  \<open>IOError\<close>, and \<open>IOError\<close> is \<open>OSError\<close>, of which \<open>FileNotFoundError\<close> is a subclass.\<close>

definition is_Timeout :: "exn \<Rightarrow> bool" where
  "is_Timeout e = (e = Timeout)"

definition is_HTTPError :: "exn \<Rightarrow> bool" where
  "is_HTTPError e = (e = HTTPError)"

definition is_RequestException :: "exn \<Rightarrow> bool" where
  "is_RequestException e = (e = Timeout \<or> e = HTTPError \<or> e = OtherRequestException)"

definition is_IOError :: "exn \<Rightarrow> bool" where
  "is_IOError e = (is_RequestException e \<or> e = OSError \<or> e = FileNotFoundError)"

text \<open>What \<open>yaml.safe_load\<close> returns: \<open>None\<close>, a string, a mapping with string keys, or
  some other value (number, boolean, list), on which every operation the code uses fails
  in the same way.\<close>

datatype yaml = YNull | YStr string | YMap "(string \<times> yaml) list" | YOther

section \<open>Strings\<close>

definition startswith :: "string \<Rightarrow> string \<Rightarrow> bool" where
  "startswith s pre = (take (length pre) s = pre)"

definition endswith :: "string \<Rightarrow> string \<Rightarrow> bool" where
  "endswith s suf = (length suf \<le> length s \<and> drop (length s - length suf) s = suf)"

text \<open>\<open>s.replace(old, new)\<close>: one pass from the left over the non-overlapping
  occurrences of \<open>old\<close>.\<close>

fun str_replace :: "string \<Rightarrow> string \<Rightarrow> string \<Rightarrow> string" where
  "str_replace [] old new = (if old = [] then new else [])"
| "str_replace (c # cs) old new =
     (if old = [] then new @ c # str_replace cs old new
      else if startswith (c # cs) old
        then new @ str_replace (drop (length old - 1) cs) old new
      else c # str_replace cs old new)"

text \<open>\<open>s.split(sep)\<close> for a one-character separator; the result is never empty.\<close>

fun str_split :: "string \<Rightarrow> char \<Rightarrow> string list" where
  "str_split [] sep = [[]]"
| "str_split (c # cs) sep =
     (if c = sep then [] # str_split cs sep
      else (case str_split cs sep of
              [] \<Rightarrow> [[c]]
            | w # ws \<Rightarrow> (c # w) # ws))"

fun join :: "string \<Rightarrow> string list \<Rightarrow> string" where
  "join sep [] = []"
| "join sep [w] = w"
| "join sep (w # ws) = w @ sep @ join sep ws"

section \<open>Paths (\<open>pathlib.Path\<close> on POSIX)\<close>

record path =
  p_root :: string
  p_parts :: "string list"

definition parse_root :: "string \<Rightarrow> string" where
  "parse_root s =
     (if startswith s ''/'' then
        (if startswith s ''//'' \<and> \<not> startswith s ''///'' then ''//'' else ''/'')
      else [])"

definition Path :: "string \<Rightarrow> path" where
  "Path s = \<lparr>p_root = parse_root s,
            p_parts = filter (\<lambda>w. w \<noteq> [] \<and> w \<noteq> ''.'') (str_split s CHR ''/'')\<rparr>"

text \<open>\<open>p / s\<close>: an absolute right operand replaces the left one.\<close>

definition path_div :: "path \<Rightarrow> string \<Rightarrow> path" where
  "path_div p s =
     (let q = Path s in
      if p_root q \<noteq> [] then q
      else \<lparr>p_root = p_root p, p_parts = p_parts p @ p_parts q\<rparr>)"

definition path_parent :: "path \<Rightarrow> path" where
  "path_parent p = (if p_parts p = [] then p else p\<lparr>p_parts := butlast (p_parts p)\<rparr>)"

definition path_str :: "path \<Rightarrow> string" where
  "path_str p =
     (if p_root p = [] \<and> p_parts p = [] then ''.''
      else p_root p @ join ''/'' (p_parts p))"

section \<open>Clock\<close>

record datetime =
  year :: nat
  month :: nat
  day :: nat
  hour :: nat
  minute :: nat
  second :: nat

fun str_of_nat :: "nat \<Rightarrow> string" where
  "str_of_nat n =
     (if n < 10 then [char_of (48 + n)]
      else str_of_nat (n div 10) @ [char_of (48 + n mod 10)])"

declare str_of_nat.simps [simp del]

text \<open>A number printed in at least \<open>w\<close> digits, zero-padded on the left.\<close>

definition zero_pad :: "nat \<Rightarrow> nat \<Rightarrow> string" where
  "zero_pad w n = replicate (w - length (str_of_nat n)) CHR ''0'' @ str_of_nat n"

text \<open>\<open>strftime("%Y-%m")\<close> and \<open>strftime("%Y%m%d_%H%M%S")\<close>: \<open>%Y\<close> is the year with
  century in four digits, \<open>%m %d %H %M %S\<close> are two digits each, zero-padded.\<close>

definition strftime_Y_m :: "datetime \<Rightarrow> string" where
  "strftime_Y_m t = zero_pad 4 (year t) @ ''-'' @ zero_pad 2 (month t)"


section \<open>Configuration loader (\<open>utils/config.py\<close>)\<close>

text \<open>The state of a file path as \<open>load_config\<close> meets it: absent, present but not
  readable, readable but not UTF-8 text, text that is not YAML, or a document.\<close>

datatype file_state = Missing | Unreadable | Undecodable | Malformed | Document yaml

type_synonym filesystem = "string \<Rightarrow> file_state"

definition load_config :: "filesystem \<Rightarrow> string \<Rightarrow> exn + yaml" where
  "load_config fs config_path =
     (case fs config_path of
        Missing \<Rightarrow> Inl FileNotFoundError
      | Unreadable \<Rightarrow> Inl OSError
      | Undecodable \<Rightarrow> Inl UnicodeDecodeError
      | Malformed \<Rightarrow> Inl YAMLError
      | Document config \<Rightarrow> Inr config)"

definition default_config_path :: string where
  "default_config_path = ''configs/config.yaml''"

text \<open>\<open>if config is None: config = load_config()\<close>, the first statement of each accessor.\<close>

definition config_or_default :: "filesystem \<Rightarrow> yaml \<Rightarrow> exn + yaml" where
  "config_or_default fs config =
     (if config = YNull then load_config fs default_config_path else Inr config)"

text \<open>\<open>obj.get(key, default)\<close>: only a mapping has the method.\<close>

definition dict_get :: "yaml \<Rightarrow> string \<Rightarrow> yaml \<Rightarrow> exn + yaml" where
  "dict_get obj key dflt =
     (case obj of
        YMap m \<Rightarrow> Inr (case map_of m key of None \<Rightarrow> dflt | Some v \<Rightarrow> v)
      | _ \<Rightarrow> Inl AttributeError)"

definition get_insee_urls :: "filesystem \<Rightarrow> yaml \<Rightarrow> exn + yaml" where
  "get_insee_urls fs config =
     (case config_or_default fs config of
        Inl e \<Rightarrow> Inl e
      | Inr config' \<Rightarrow>
          (case dict_get config' ''insee'' (YMap []) of
             Inl e \<Rightarrow> Inl e
           | Inr insee_config \<Rightarrow> dict_get insee_config ''download_urls'' (YMap [])))"

definition get_insee_metadata :: "filesystem \<Rightarrow> yaml \<Rightarrow> exn + yaml" where
  "get_insee_metadata fs config =
     (case config_or_default fs config of
        Inl e \<Rightarrow> Inl e
      | Inr config' \<Rightarrow>
          (case dict_get config' ''insee'' (YMap []) of
             Inl e \<Rightarrow> Inl e
           | Inr insee_config \<Rightarrow> dict_get insee_config ''metadata'' (YMap [])))"

definition get_data_paths :: "filesystem \<Rightarrow> yaml \<Rightarrow> exn + yaml" where
  "get_data_paths fs config =
     (case config_or_default fs config of
        Inl e \<Rightarrow> Inl e
      | Inr config' \<Rightarrow> dict_get config' ''paths'' (YMap []))"

section \<open>Selection of the URLs to download\<close>

text \<open>The first loop of \<open>download_insee_files\<close>; \<open>acc\<close> is \<open>urls_to_download\<close>.\<close>

definition file_type_of :: "string \<Rightarrow> string" where
  "file_type_of key = str_replace key ''_url'' []"

definition wanted :: "string list option \<Rightarrow> string \<Rightarrow> bool" where
  "wanted files_to_download file_type =
     (case files_to_download of None \<Rightarrow> True | Some fs \<Rightarrow> file_type \<in> set fs)"

fun select_urls :: "string list option \<Rightarrow> yaml dict \<Rightarrow> yaml dict \<Rightarrow> yaml dict" where
  "select_urls files_to_download [] acc = acc"
| "select_urls files_to_download ((key, url) # rest) acc =
     (if endswith key ''_url'' \<and> wanted files_to_download (file_type_of key)
      then select_urls files_to_download rest (AList.update (file_type_of key) url acc)
      else select_urls files_to_download rest acc)"

section \<open>Observable effects\<close>

text \<open>
  Every call on the module logger and every call that touches the file system or the
  network is recorded, in program order. \<open>MkDir p\<close> is
  \<open>p.mkdir(parents=True, exist_ok=True)\<close>; \<open>HttpGet u\<close> is
  \<open>requests.get(u, stream=True, timeout=30)\<close>. A log message is kept as the
  values its f-string interpolates.
\<close>

datatype level = Debug | Info | Warning | Error

datatype log_msg =
    StartingDownload string
  | FileSize int
  | Downloaded path
  | TimeoutDownloading string
  | HTTPErrorDownloading string exn
  | ErrorDownloading string exn
  | ErrorWriting path exn
  | StartingBatch path
  | TimestampLine
  | FilesToDownload "string list"
  | Downloading string string
  | UrlLine string
  | DestinationLine path
  | Rule
  | Summary nat nat
  | FailedDownloads nat
  | FailedFiles "string list"

datatype event =
    Log level log_msg
  | MkDir path
  | HttpGet string
  | OpenWrite path
  | WriteBytes string
  | ProgressUpdate nat
  | CloseFile path

section \<open>One transfer (\<open>download_file\<close>)\<close>

text \<open>
  What the world answers during one call of \<open>download_file\<close>: whether creating the
  parent directory fails, whether \<open>requests.get\<close> raises, the status code, the
  \<open>content-length\<close> header, whether opening the destination fails, what iterating the
  response yields (a chunk of bytes with the outcome of writing it, or a fault of the
  stream), and whether closing the file fails.
\<close>

datatype request_fault = TimedOut | BadStatus | OtherFault

definition request_exn :: "request_fault \<Rightarrow> exn" where
  "request_exn f = (case f of TimedOut \<Rightarrow> Timeout | BadStatus \<Rightarrow> HTTPError
                     | OtherFault \<Rightarrow> OtherRequestException)"

datatype header = Absent | Integer int | NotInteger

datatype chunk_event = Chunk string bool | StreamFault request_fault

record transfer_env =
  mkdir_fails :: bool
  get_fault :: "request_fault option"
  status_code :: nat
  content_length :: header
  open_fails :: bool
  body :: "chunk_event list"
  close_fails :: bool

text \<open>\<open>int(response.headers.get("content-length", 0))\<close>.\<close>

definition total_size_of :: "header \<Rightarrow> exn + int" where
  "total_size_of h = (case h of Absent \<Rightarrow> Inr 0 | Integer n \<Rightarrow> Inr n
                       | NotInteger \<Rightarrow> Inl ValueError)"

text \<open>\<open>total_size / (1024 * 1024)\<close>, evaluated for the debug line of the size, is a
  division in floating point: it raises \<open>OverflowError\<close> when the quotient, rounded
  to the nearest float, lies beyond the largest one, that is when the size is at least
  \<open>2 ^ 1044 - 2 ^ 990\<close> in absolute value.\<close>

definition true_div_overflows :: "int \<Rightarrow> bool" where
  "true_div_overflows n = (2 ^ 1044 - 2 ^ 990 \<le> \<bar>n\<bar>)"

text \<open>The loop over \<open>response.iter_content\<close>; the two copies in the source differ
  only in \<open>pbar.update\<close>. An empty chunk is skipped (\<open>if chunk:\<close>).\<close>

fun write_chunks :: "bool \<Rightarrow> chunk_event list \<Rightarrow> (exn + unit) \<times> event list" where
  "write_chunks progress [] = (Inr (), [])"
| "write_chunks progress (StreamFault f # rest) = (Inl (request_exn f), [])"
| "write_chunks progress (Chunk chunk write_ok # rest) =
     (if chunk = [] then write_chunks progress rest
      else if \<not> write_ok then (Inl OSError, [])
      else (case write_chunks progress rest of
              (r, evs) \<Rightarrow>
                (r, WriteBytes chunk #
                    (if progress then [ProgressUpdate (length chunk)] else []) @ evs)))"

text \<open>The body of the \<open>try\<close> statement, for a response whose stream ends. Leaving the \<open>with open\<close> block closes the
  file, also when the block raised; a failing close replaces the pending exception.\<close>

definition try_block ::
  "transfer_env \<Rightarrow> string \<Rightarrow> path \<Rightarrow> bool \<Rightarrow> (exn + unit) \<times> event list" where
  "try_block te url local_path show_progress =
     (let ev1 = [Log Debug (StartingDownload url), HttpGet url] in
      case get_fault te of
        Some f \<Rightarrow> (Inl (request_exn f), ev1)
      | None \<Rightarrow>
          if 400 \<le> status_code te \<and> status_code te < 600 then (Inl HTTPError, ev1)
          else
            (case total_size_of (content_length te) of
               Inl e \<Rightarrow> (Inl e, ev1)
             | Inr total_size \<Rightarrow>
                 if true_div_overflows total_size then (Inl OverflowError, ev1)
                 else
                 (let ev2 = ev1 @ [Log Debug (FileSize total_size)] in
                  if open_fails te then (Inl OSError, ev2)
                  else
                    (case write_chunks (show_progress \<and> 0 < total_size) (body te) of
                       (r, evs) \<Rightarrow>
                         (let ev3 = ev2 @ [OpenWrite local_path] @ evs @ [CloseFile local_path] in
                          if close_fails te then (Inl OSError, ev3)
                          else
                            (case r of
                               Inl e \<Rightarrow> (Inl e, ev3)
                             | Inr _ \<Rightarrow> (Inr (), ev3 @ [Log Info (Downloaded local_path)])))))))"

text \<open>The four \<open>except\<close> clauses, tried in the order of the source; \<open>None\<close> when no
  clause matches and the exception leaves the function.\<close>

definition except_clauses :: "exn \<Rightarrow> string \<Rightarrow> path \<Rightarrow> log_msg option" where
  "except_clauses e url local_path =
     (if is_Timeout e then Some (TimeoutDownloading url)
      else if is_HTTPError e then Some (HTTPErrorDownloading url e)
      else if is_RequestException e then Some (ErrorDownloading url e)
      else if is_IOError e then Some (ErrorWriting local_path e)
      else None)"

definition download_file ::
  "transfer_env \<Rightarrow> string \<Rightarrow> string \<Rightarrow> nat \<Rightarrow> bool \<Rightarrow> (exn + bool) \<times> event list" where
  "download_file te url local_path chunk_size show_progress =
     (let local_path' = Path local_path;
          ev0 = [MkDir (path_parent local_path')] in
      if mkdir_fails te then (Inl OSError, ev0)
      else
        (case try_block te url local_path' show_progress of
           (Inr _, evs) \<Rightarrow> (Inr True, ev0 @ evs)
         | (Inl e, evs) \<Rightarrow>
             (case except_clauses e url local_path' of
                Some msg \<Rightarrow> (Inr False, ev0 @ evs @ [Log Error msg])
              | None \<Rightarrow> (Inl e, ev0 @ evs))))"

section \<open>The batch (\<open>download_insee_files\<close>)\<close>

record env =
  files :: filesystem
  now :: datetime
  dest_mkdir_fails :: bool
  transfers :: "nat \<Rightarrow> transfer_env"

text \<open>\<open>obj[key]\<close>, \<open>Path(obj)\<close> and \<open>obj.items()\<close> on a value of the configuration.\<close>

definition subscript :: "yaml \<Rightarrow> string \<Rightarrow> exn + yaml" where
  "subscript obj key =
     (case obj of
        YMap m \<Rightarrow> (case map_of m key of None \<Rightarrow> Inl KeyError | Some v \<Rightarrow> Inr v)
      | _ \<Rightarrow> Inl TypeError)"

definition path_of :: "yaml \<Rightarrow> exn + path" where
  "path_of obj = (case obj of YStr s \<Rightarrow> Inr (Path s) | _ \<Rightarrow> Inl TypeError)"

definition dict_items :: "yaml \<Rightarrow> exn + yaml dict" where
  "dict_items obj = (case obj of YMap m \<Rightarrow> Inr m | _ \<Rightarrow> Inl AttributeError)"

text \<open>The \<open>if output_dir is None\<close> statement.\<close>

definition resolve_output_dir :: "datetime \<Rightarrow> yaml \<Rightarrow> string option \<Rightarrow> exn + path" where
  "resolve_output_dir t data_paths output_dir =
     (case output_dir of
        None \<Rightarrow>
          (let timestamp = strftime_Y_m t in
           case subscript data_paths ''bronze'' of
             Inl e \<Rightarrow> Inl e
           | Inr bronze \<Rightarrow>
               (case path_of bronze of
                  Inl e \<Rightarrow> Inl e
                | Inr p \<Rightarrow> Inr (path_div p timestamp)))
      | Some d \<Rightarrow> Inr (Path d))"

text \<open>The second loop; \<open>i\<close> counts the calls of \<open>download_file\<close> made so far, and
  \<open>results\<close> is the report under construction. \<open>url.split\<close> needs a string.\<close>

fun download_loop ::
  "(nat \<Rightarrow> transfer_env) \<Rightarrow> nat \<Rightarrow> path \<Rightarrow> yaml dict \<Rightarrow> bool dict
     \<Rightarrow> (exn + bool dict) \<times> event list" where
  "download_loop tr i output_dir [] results = (Inr results, [])"
| "download_loop tr i output_dir ((file_type, url) # rest) results =
     (case url of
        YStr u \<Rightarrow>
          (let filename = last (str_split u CHR ''/'');
               local_path = path_div output_dir filename;
               ev = [Log Info (Downloading file_type filename), Log Debug (UrlLine u),
                     Log Debug (DestinationLine local_path)]
           in case download_file (tr i) u (path_str local_path) 8192 True of
                (Inl e, evs) \<Rightarrow> (Inl e, ev @ evs)
              | (Inr success, evs) \<Rightarrow>
                  (case download_loop tr (Suc i) output_dir rest
                          (AList.update file_type success results) of
                     (r, evs') \<Rightarrow> (r, ev @ evs @ evs')))
      | _ \<Rightarrow> (Inl AttributeError, []))"

definition summary_log :: "bool dict \<Rightarrow> event list" where
  "summary_log results =
     (let successful = length (filter snd results);
          failed = length results - successful
      in [Log Info Rule, Log Info (Summary successful (length results))] @
         (if 0 < failed
          then [Log Warning (FailedDownloads failed),
                Log Warning (FailedFiles (map fst (filter (\<lambda>kv. \<not> snd kv) results)))]
          else []) @
         [Log Info Rule])"

definition download_insee_files ::
  "env \<Rightarrow> yaml \<Rightarrow> string option \<Rightarrow> string list option \<Rightarrow> (exn + bool dict) \<times> event list" where
  "download_insee_files w config output_dir files_to_download =
     (case get_insee_urls (files w) config of
        Inl e \<Rightarrow> (Inl e, [])
      | Inr insee_urls \<Rightarrow>
     (case get_data_paths (files w) config of
        Inl e \<Rightarrow> (Inl e, [])
      | Inr data_paths \<Rightarrow>
     (case resolve_output_dir (now w) data_paths output_dir of
        Inl e \<Rightarrow> (Inl e, [])
      | Inr dir \<Rightarrow>
          if dest_mkdir_fails w then (Inl OSError, [MkDir dir])
          else
            (let ev1 = [MkDir dir, Log Info (StartingBatch dir), Log Info TimestampLine] in
             case dict_items insee_urls of
               Inl e \<Rightarrow> (Inl e, ev1)
             | Inr entries \<Rightarrow>
                 (let urls_to_download = select_urls files_to_download entries [];
                      ev2 = ev1 @ [Log Info (FilesToDownload (map fst urls_to_download))]
                  in case download_loop (transfers w) 0 dir urls_to_download [] of
                       (Inl e, evs) \<Rightarrow> (Inl e, ev2 @ evs)
                     | (Inr results, evs) \<Rightarrow>
                         (Inr results, ev2 @ evs @ summary_log results))))))"

text \<open>What a trace shows of the transfers: the file types announced by the
  \<open>Downloading\<close> line that precedes each call of \<open>download_file\<close>, and the requests sent.\<close>

fun attempted :: "event list \<Rightarrow> string list" where
  "attempted [] = []"
| "attempted (Log Info (Downloading file_type filename) # evs) = file_type # attempted evs"
| "attempted (ev # evs) = attempted evs"

fun requests_sent :: "event list \<Rightarrow> string list" where
  "requests_sent [] = []"
| "requests_sent (HttpGet u # evs) = u # requests_sent evs"
| "requests_sent (ev # evs) = requests_sent evs"

section \<open>Logger setup (\<open>utils/logger.py\<close>)\<close>
















section \<open>File types of a configuration and of a request\<close>

text \<open>The file types that the code derives from the entries of \<open>download_urls\<close> with
  a key ending in \<open>_url\<close>, and the file types a value of \<open>files_to_download\<close> asks
  for (all of them when it is \<open>None\<close>).\<close>

definition derived_types :: "yaml dict \<Rightarrow> string set" where
  "derived_types entries = file_type_of ` {key \<in> fst ` set entries. endswith key ''_url''}"

definition requested :: "string list option \<Rightarrow> string set" where
  "requested files_to_download =
     (case files_to_download of None \<Rightarrow> UNIV | Some fs \<Rightarrow> set fs)"

text \<open>The file type that the convention \<open><file_type>_url\<close> of the specification gives
  to a key ending in \<open>_url\<close>, namely the key without that ending, and the file types
  present in a configuration under that convention.\<close>

definition convention_file_type :: "string \<Rightarrow> string" where
  "convention_file_type key = take (length key - length ''_url'') key"

definition configured_types :: "yaml dict \<Rightarrow> string set" where
  "configured_types entries =
     convention_file_type ` {key \<in> fst ` set entries. endswith key ''_url''}"

section \<open>Faults of a transfer, read off the world\<close>

text \<open>A chunk does no harm when it is empty (it is skipped) or its write succeeds; a
  transfer is faultless when the request, the status check, the opening of the file, every
  chunk and the closing of the file all succeed.\<close>

fun chunk_ok :: "chunk_event \<Rightarrow> bool" where
  "chunk_ok (Chunk chunk write_ok) = (chunk = [] \<or> write_ok)"
| "chunk_ok (StreamFault f) = False"

definition bad_status :: "transfer_env \<Rightarrow> bool" where
  "bad_status te = (400 \<le> status_code te \<and> status_code te < 600)"

definition faultless :: "transfer_env \<Rightarrow> bool" where
  "faultless te =
     (get_fault te = None \<and> \<not> bad_status te \<and> \<not> open_fails te
      \<and> list_all chunk_ok (body te) \<and> \<not> close_fails te)"

text \<open>A length header that lines 39 and 40 get through: absent, or an integer that
  the division of line 40 can carry.\<close>

definition usable_length :: "header \<Rightarrow> bool" where
  "usable_length h =
     (case h of Absent \<Rightarrow> True | Integer n \<Rightarrow> \<not> true_div_overflows n
      | NotInteger \<Rightarrow> False)"


text \<open>The error line that names the cause of a caught exception.\<close>

definition cause_msg :: "exn \<Rightarrow> string \<Rightarrow> path \<Rightarrow> log_msg" where
  "cause_msg e url p =
     (if e = Timeout then TimeoutDownloading url
      else if e = HTTPError then HTTPErrorDownloading url e
      else if e = OtherRequestException then ErrorDownloading url e
      else ErrorWriting p e)"

section \<open>Sample inputs\<close>

text \<open>A transfer in which every step succeeds, a world in which every transfer is of
  that kind, and configurations built around a given \<open>download_urls\<close> mapping.\<close>

definition steady_transfer :: transfer_env where
  "steady_transfer =
     \<lparr>mkdir_fails = False, get_fault = None, status_code = 200,
      content_length = Integer 3, open_fails = False, body = [Chunk ''abc'' True],
      close_fails = False\<rparr>"

definition steady_env :: env where
  "steady_env =
     \<lparr>files = (\<lambda>p. Missing),
      now = \<lparr>year = 2026, month = 3, day = 4, hour = 5, minute = 6, second = 7\<rparr>,
      dest_mkdir_fails = False, transfers = (\<lambda>i. steady_transfer)\<rparr>"

definition config_with :: "yaml dict \<Rightarrow> yaml" where
  "config_with urls =
     YMap [(''insee'', YMap [(''download_urls'', YMap urls)]),
           (''paths'', YMap [(''bronze'', YStr ''/data/bronze'')])]"

definition colliding_urls :: "yaml dict" where
  "colliding_urls =
     [(''x_url'', YStr ''http://h/one.zip''), (''x_url_url'', YStr ''http://h/two.zip'')]"

definition not_found_transfer :: transfer_env where
  "not_found_transfer = steady_transfer\<lparr>status_code := 404\<rparr>"

definition garbled_length_transfer :: transfer_env where
  "garbled_length_transfer = steady_transfer\<lparr>content_length := NotInteger\<rparr>"

definition huge_length_transfer :: transfer_env where
  "huge_length_transfer = steady_transfer\<lparr>content_length := Integer (10 ^ 400)\<rparr>"

definition readonly_parent_transfer :: transfer_env where
  "readonly_parent_transfer = steady_transfer\<lparr>mkdir_fails := True\<rparr>"

definition single_url :: "yaml dict" where
  "single_url = [(''a_url'', YStr ''http://h/one.zip'')]"





definition nested_urls :: "yaml dict" where
  "nested_urls = [(''x_url_url'', YStr ''http://h/two.zip'')]"






section \<open>Derivation of the file type\<close>

lemma colliding_run:
  "download_insee_files steady_env (config_with colliding_urls) None None =
     (Inr [(''x'', True)],
      [MkDir \<lparr>p_root = ''/'', p_parts = [''data'', ''bronze'', ''2026-03'']\<rparr>,
       Log Info (StartingBatch \<lparr>p_root = ''/'', p_parts = [''data'', ''bronze'', ''2026-03'']\<rparr>),
       Log Info TimestampLine,
       Log Info (FilesToDownload [''x'']),
       Log Info (Downloading ''x'' ''two.zip''),
       Log Debug (UrlLine ''http://h/two.zip''),
       Log Debug (DestinationLine
         \<lparr>p_root = ''/'', p_parts = [''data'', ''bronze'', ''2026-03'', ''two.zip'']\<rparr>),
       MkDir \<lparr>p_root = ''/'', p_parts = [''data'', ''bronze'', ''2026-03'']\<rparr>,
       Log Debug (StartingDownload ''http://h/two.zip''),
       HttpGet ''http://h/two.zip'',
       Log Debug (FileSize 3),
       OpenWrite \<lparr>p_root = ''/'', p_parts = [''data'', ''bronze'', ''2026-03'', ''two.zip'']\<rparr>,
       WriteBytes ''abc'',
       ProgressUpdate 3,
       CloseFile \<lparr>p_root = ''/'', p_parts = [''data'', ''bronze'', ''2026-03'', ''two.zip'']\<rparr>,
       Log Info (Downloaded
         \<lparr>p_root = ''/'', p_parts = [''data'', ''bronze'', ''2026-03'', ''two.zip'']\<rparr>),
       Log Info Rule,
       Log Info (Summary 1 1),
       Log Info Rule])"
  by code_simp

lemma colliding_suffixed: "length (filter (\<lambda>kv. endswith (fst kv) ''_url'') colliding_urls) = 2"
  by (simp add: colliding_urls_def endswith_def)

text \<open>
  C8. The file type is the key with every occurrence of \<open>_url\<close> removed, not only the
  trailing one: \<open>a_url_b_url\<close> gives \<open>a_b\<close>, and the two keys \<open>x_url\<close> and
  \<open>x_url_url\<close>, both ending in \<open>_url\<close>, give the same file type \<open>x\<close>. In a
  configuration holding both, the later entry overwrites the earlier one in the mapping
  of URLs to download, and the report has one entry for two suffixed keys.
\<close>

theorem file_type_drops_every_url_occurrence:
  "file_type_of ''a_url_b_url'' = ''a_b''
   \<and> file_type_of ''x_url'' = ''x''
   \<and> file_type_of ''x_url_url'' = ''x''
   \<and> length (filter (\<lambda>kv. endswith (fst kv) ''_url'') colliding_urls) = 2
   \<and> select_urls None colliding_urls [] = [(''x'', YStr ''http://h/two.zip'')]
   \<and> fst (download_insee_files steady_env (config_with colliding_urls) None None)
       = Inr [(''x'', True)]"
proof -
  have ft: "file_type_of ''a_url_b_url'' = ''a_b''" "file_type_of ''x_url'' = ''x''"
    "file_type_of ''x_url_url'' = ''x''"
    by (simp_all add: file_type_of_def startswith_def)
  have sel: "select_urls None colliding_urls [] = [(''x'', YStr ''http://h/two.zip'')]"
    by (simp add: colliding_urls_def endswith_def wanted_def ft)
  have run: "fst (download_insee_files steady_env (config_with colliding_urls) None None)
       = Inr [(''x'', True)]"
    by (simp add: colliding_run)
  from ft colliding_suffixed sel run show ?thesis by (intro conjI) (assumption+)
qed

text \<open>
  C2 on the code. The configuration below has exactly two entries whose keys end in
  \<open>_url\<close>, with distinct keys and no filter; the run sends one request, announces one
  transfer and returns a report with one entry.
\<close>

theorem colliding_keys_one_transfer:
  "distinct (map fst colliding_urls)
   \<and> length (filter (\<lambda>kv. endswith (fst kv) ''_url'') colliding_urls) = 2
   \<and> requests_sent (snd (download_insee_files steady_env (config_with colliding_urls) None None))
       = [''http://h/two.zip'']
   \<and> attempted (snd (download_insee_files steady_env (config_with colliding_urls) None None))
       = [''x'']
   \<and> fst (download_insee_files steady_env (config_with colliding_urls) None None)
       = Inr [(''x'', True)]"
proof -
  have d: "distinct (map fst colliding_urls)"
    by (simp add: colliding_urls_def)
  have r: "requests_sent (snd (download_insee_files steady_env (config_with colliding_urls) None None))
       = [''http://h/two.zip'']"
    by (simp add: colliding_run)
  have a: "attempted (snd (download_insee_files steady_env (config_with colliding_urls) None None))
       = [''x'']"
    by (simp add: colliding_run)
  have f: "fst (download_insee_files steady_env (config_with colliding_urls) None None)
       = Inr [(''x'', True)]"
    by (simp add: colliding_run)
  from d colliding_suffixed r a f show ?thesis by (intro conjI) (assumption+)
qed

section \<open>Faults inside \<open>download_file\<close>\<close>

lemma no_overflow_at_zero: "\<not> true_div_overflows 0"
  by (simp add: true_div_overflows_def)

lemma usable_small: "usable_length (Integer 3)"
  by (simp add: usable_length_def true_div_overflows_def)

lemma steady_length_usable: "usable_length (content_length steady_transfer)"
  by (simp add: usable_small steady_transfer_def)

lemma is_IOError_request_exn: "is_IOError (request_exn f)"
  by (cases f) (simp_all add: request_exn_def is_IOError_def is_RequestException_def)

lemma write_chunks_ok: "fst (write_chunks pb cs) = Inr () \<longleftrightarrow> list_all chunk_ok cs"
proof (induction pb cs rule: write_chunks.induct)
  case (1 progress)
  then show ?case by simp
next
  case (2 progress f rest)
  then show ?case by simp
next
  case (3 progress chunk write_ok rest)
  then show ?case by (cases "write_chunks progress rest") auto
qed

lemma write_chunks_raises: "fst (write_chunks pb cs) = Inl e \<Longrightarrow> is_IOError e"
proof (induction pb cs rule: write_chunks.induct)
  case (1 progress)
  then show ?case by simp
next
  case (2 progress f rest)
  then show ?case by (auto simp: is_IOError_request_exn)
next
  case (3 progress chunk write_ok rest)
  then show ?case
    by (cases "write_chunks progress rest") (auto simp: is_IOError_def split: if_splits)
qed

lemma try_block_ok:
  "fst (try_block te url p sp) = Inr () \<longleftrightarrow> faultless te \<and> usable_length (content_length te)"
proof (cases "write_chunks (sp \<and> 0 < (case content_length te of Integer n \<Rightarrow> n | _ \<Rightarrow> 0)) (body te)")
  case (Pair r evs)
  have "r = Inr () \<longleftrightarrow> list_all chunk_ok (body te)"
    using write_chunks_ok[of "sp \<and> 0 < (case content_length te of Integer n \<Rightarrow> n | _ \<Rightarrow> 0)" "body te"] Pair
    by simp
  with Pair show ?thesis
    by (cases "content_length te"; cases r)
       (auto simp: try_block_def faultless_def bad_status_def total_size_of_def Let_def
             usable_length_def no_overflow_at_zero split: option.splits)
qed

lemma try_block_raises:
  assumes "fst (try_block te url p sp) = Inl e"
  shows "is_IOError e \<or> ((e = ValueError \<or> e = OverflowError) \<and> \<not> usable_length (content_length te))"
proof -
  have w: "\<And>pb r evs. write_chunks pb (body te) = (Inl e, evs) \<Longrightarrow> is_IOError e"
    using write_chunks_raises by (metis fst_conv)
  have os: "is_IOError OSError" and ht: "is_IOError HTTPError"
    by (simp_all add: is_IOError_def is_RequestException_def)
  show ?thesis
    using assms
    by (auto simp: try_block_def total_size_of_def Let_def is_IOError_request_exn os ht
             usable_length_def no_overflow_at_zero
             split: option.splits if_splits header.splits prod.splits sum.splits dest: w)
qed

lemma except_clauses_IOError:
  "is_IOError e \<Longrightarrow> except_clauses e url p = Some (cause_msg e url p)"
  by (cases e) (simp_all add: except_clauses_def cause_msg_def is_IOError_def
      is_RequestException_def is_Timeout_def is_HTTPError_def)

lemma except_clauses_None: "except_clauses e url p = None \<longleftrightarrow> \<not> is_IOError e"
  by (cases e) (simp_all add: except_clauses_def is_IOError_def
      is_RequestException_def is_Timeout_def is_HTTPError_def)

text \<open>
  C1, as the code has it. When creating the parent directory succeeds, \<open>download_file\<close>
  returns true exactly when the transfer met no fault and the length header is absent or
  an integer that the size line can print; an exception that leaves the function is
  never a timeout, an HTTP error, another request error or an I/O error; and each such
  fault raised inside the guarded block gives the result false, the last line logged
  being the error line of its cause.
\<close>

theorem download_file_guards_transfer_faults:
  assumes "\<not> mkdir_fails te"
  shows "(fst (download_file te url lp cs sp) = Inr True
            \<longleftrightarrow> faultless te \<and> usable_length (content_length te))
       \<and> (\<forall>e. fst (download_file te url lp cs sp) = Inl e \<longrightarrow> \<not> is_IOError e)
       \<and> (\<forall>e. fst (try_block te url (Path lp) sp) = Inl e \<and> is_IOError e \<longrightarrow>
             fst (download_file te url lp cs sp) = Inr False
           \<and> last (snd (download_file te url lp cs sp)) = Log Error (cause_msg e url (Path lp)))"
proof (cases "try_block te url (Path lp) sp")
  case (Pair r evs)
  show ?thesis
  proof (cases r)
    case (Inl e)
    have "\<not> (faultless te \<and> usable_length (content_length te))"
      using try_block_ok[of te url "Path lp" sp] Pair Inl by simp
    then show ?thesis
      using assms Pair Inl except_clauses_IOError[of e url "Path lp"]
        except_clauses_None[of e url "Path lp"]
      by (cases "is_IOError e") (auto simp: download_file_def Let_def split: option.splits)
  next
    case (Inr u)
    have "faultless te \<and> usable_length (content_length te)"
      using try_block_ok[of te url "Path lp" sp] Pair Inr by simp
    then show ?thesis
      using assms Pair Inr by (simp add: download_file_def Let_def)
  qed
qed

lemma try_block_not_found:
  "fst (try_block not_found_transfer ''http://h/one.zip'' (Path ''/d/one.zip'') True)
     = Inl HTTPError"
  by (simp add: try_block_def not_found_transfer_def steady_transfer_def)

theorem download_file_guards_transfer_faults_witness:
  "\<not> mkdir_fails not_found_transfer
   \<and> is_IOError HTTPError
   \<and> fst (download_file not_found_transfer ''http://h/one.zip'' ''/d/one.zip'' 8192 True)
       = Inr False
   \<and> last (snd (download_file not_found_transfer ''http://h/one.zip'' ''/d/one.zip'' 8192 True))
       = Log Error (HTTPErrorDownloading ''http://h/one.zip'' HTTPError)
   \<and> \<not> mkdir_fails steady_transfer
   \<and> faultless steady_transfer
   \<and> fst (download_file steady_transfer ''http://h/one.zip'' ''/d/one.zip'' 8192 True)
       = Inr True"
proof -
  have m: "\<not> mkdir_fails not_found_transfer"
    by (simp add: not_found_transfer_def steady_transfer_def)
  have io: "is_IOError HTTPError"
    by (simp add: is_IOError_def is_RequestException_def)
  have m': "\<not> mkdir_fails steady_transfer"
    by (simp add: steady_transfer_def)
  have f: "faultless steady_transfer \<and> usable_length (content_length steady_transfer)"
    by (simp add: faultless_def bad_status_def steady_length_usable) (simp add: steady_transfer_def)
  show ?thesis
    using download_file_guards_transfer_faults[OF m, of "''http://h/one.zip''" "''/d/one.zip''" 8192 True]
      download_file_guards_transfer_faults[OF m', of "''http://h/one.zip''" "''/d/one.zip''" 8192 True]
      try_block_not_found m m' io f
    by (simp add: cause_msg_def)
qed

text \<open>
  C1 as stated fails: when the parent directory cannot be created, the operating-system
  error, itself an I/O error, leaves \<open>download_file\<close> as an exception.
\<close>

theorem download_file_io_fault_escapes:
  "fst (download_file readonly_parent_transfer ''http://h/one.zip'' ''/d/one.zip'' 8192 True)
     = Inl OSError
   \<and> is_IOError OSError"
  by (simp add: download_file_def readonly_parent_transfer_def steady_transfer_def
      is_IOError_def)

text \<open>
  C9. Every call of \<open>download_file\<close> starts by creating the parent directory of the
  destination, outside the guarded block; when that creation fails the call ends there
  with the operating-system error raised, not with the result false.
\<close>

theorem parent_mkdir_failure_propagates:
  "(\<exists>evs. snd (download_file te url lp cs sp) = MkDir (path_parent (Path lp)) # evs)
   \<and> (mkdir_fails te \<longrightarrow>
        download_file te url lp cs sp = (Inl OSError, [MkDir (path_parent (Path lp))]))"
  by (simp add: download_file_def Let_def split: prod.splits sum.splits option.splits)

theorem parent_mkdir_failure_propagates_witness:
  "mkdir_fails (not_found_transfer\<lparr>mkdir_fails := True\<rparr>)
   \<and> download_file (not_found_transfer\<lparr>mkdir_fails := True\<rparr>) ''http://h/two.zip''
        ''out/two.zip'' 8192 False
       = (Inl OSError, [MkDir (path_parent (Path ''out/two.zip''))])"
  using parent_mkdir_failure_propagates[of "not_found_transfer\<lparr>mkdir_fails := True\<rparr>"
      "''http://h/two.zip''" "''out/two.zip''" 8192 False]
  by simp

section \<open>Configuration accessors\<close>

text \<open>
  C6, as the code has it. For a configuration document that is a mapping (passed in, or
  loaded from the default path when none is passed), \<open>get_insee_urls\<close> returns the
  empty mapping when the key \<open>insee\<close> is absent, and when \<open>insee\<close> is a mapping
  without the key \<open>download_urls\<close>; \<open>get_data_paths\<close> returns the empty mapping
  when the key \<open>paths\<close> is absent and never raises; and \<open>get_insee_urls\<close> raises
  only when \<open>insee\<close> is present with a value that is not a mapping.
\<close>

theorem accessors_default_to_empty_mapping:
  assumes "config_or_default fs config = Inr (YMap m)"
  shows "(map_of m ''insee'' = None \<longrightarrow> get_insee_urls fs config = Inr (YMap []))
       \<and> (\<forall>i. map_of m ''insee'' = Some (YMap i) \<and> map_of i ''download_urls'' = None
             \<longrightarrow> get_insee_urls fs config = Inr (YMap []))
       \<and> (map_of m ''paths'' = None \<longrightarrow> get_data_paths fs config = Inr (YMap []))
       \<and> (\<exists>v. get_data_paths fs config = Inr v)
       \<and> (\<forall>e. get_insee_urls fs config = Inl e \<longrightarrow>
             e = AttributeError
           \<and> (\<exists>v. map_of m ''insee'' = Some v \<and> (\<forall>i. v \<noteq> YMap i)))"
proof -
  have a: "map_of m ''insee'' = None \<longrightarrow> get_insee_urls fs config = Inr (YMap [])"
    using assms by (simp add: get_insee_urls_def dict_get_def)
  have b: "\<forall>i. map_of m ''insee'' = Some (YMap i) \<and> map_of i ''download_urls'' = None
             \<longrightarrow> get_insee_urls fs config = Inr (YMap [])"
    using assms by (simp add: get_insee_urls_def dict_get_def)
  have c: "map_of m ''paths'' = None \<longrightarrow> get_data_paths fs config = Inr (YMap [])"
    using assms by (simp add: get_data_paths_def dict_get_def)
  have d: "\<exists>v. get_data_paths fs config = Inr v"
    using assms by (simp add: get_data_paths_def dict_get_def)
  have e: "\<forall>e. get_insee_urls fs config = Inl e \<longrightarrow>
             e = AttributeError
           \<and> (\<exists>v. map_of m ''insee'' = Some v \<and> (\<forall>i. v \<noteq> YMap i))"
    using assms
    by (auto simp: get_insee_urls_def dict_get_def split: option.splits yaml.splits)
  from a b c d e show ?thesis by (intro conjI)
qed

theorem accessors_default_to_empty_mapping_witness:
  "config_or_default (\<lambda>p. Missing) (YMap [(''insee'', YMap [(''metadata'', YMap [])])])
     = Inr (YMap [(''insee'', YMap [(''metadata'', YMap [])])])
   \<and> get_insee_urls (\<lambda>p. Missing) (YMap [(''insee'', YMap [(''metadata'', YMap [])])])
       = Inr (YMap [])
   \<and> get_data_paths (\<lambda>p. Missing) (YMap [(''insee'', YMap [(''metadata'', YMap [])])])
       = Inr (YMap [])
   \<and> config_or_default (\<lambda>p. Document (YMap [])) YNull = Inr (YMap [])
   \<and> get_insee_urls (\<lambda>p. Document (YMap [])) YNull = Inr (YMap [])"
proof -
  have a: "config_or_default (\<lambda>p. Missing) (YMap [(''insee'', YMap [(''metadata'', YMap [])])])
     = Inr (YMap [(''insee'', YMap [(''metadata'', YMap [])])])"
    by (simp add: config_or_default_def)
  have b: "config_or_default (\<lambda>p. Document (YMap [])) YNull = Inr (YMap [])"
    by (simp add: config_or_default_def load_config_def)
  show ?thesis
    using accessors_default_to_empty_mapping[OF a] accessors_default_to_empty_mapping[OF b] a b
    by simp
qed

text \<open>
  C6 as stated fails. In the document \<open>insee:\<close> with nothing after the colon, the key
  \<open>download_urls\<close> is absent and \<open>get_insee_urls\<close> raises \<open>AttributeError\<close>;
  an empty document loads without fault as \<open>None\<close>, holds none of the keys, and both
  accessors raise \<open>AttributeError\<close> on it.
\<close>

theorem accessors_raise_on_empty_entries:
  "get_insee_urls (\<lambda>p. Missing) (YMap [(''insee'', YNull)]) = Inl AttributeError
   \<and> load_config (\<lambda>p. Document YNull) default_config_path = Inr YNull
   \<and> get_insee_urls (\<lambda>p. Document YNull) YNull = Inl AttributeError
   \<and> get_data_paths (\<lambda>p. Document YNull) YNull = Inl AttributeError"
  by (simp add: get_insee_urls_def get_data_paths_def config_or_default_def dict_get_def
      load_config_def)

section \<open>Selection and the download loop\<close>

lemma select_urls_keys:
  "fst ` set (select_urls sel entries acc)
     = fst ` set acc \<union> (derived_types entries \<inter> requested sel)"
proof (induction entries arbitrary: acc)
  case Nil
  then show ?case by (simp add: derived_types_def)
next
  case (Cons kv entries)
  obtain key url where kv: "kv = (key, url)" by (cases kv)
  have step: "derived_types (kv # entries)
      = (if endswith key ''_url'' then {file_type_of key} else {}) \<union> derived_types entries"
    by (auto simp: derived_types_def kv)
  have w: "wanted sel (file_type_of key) \<longleftrightarrow> file_type_of key \<in> requested sel"
    by (simp add: wanted_def requested_def split: option.splits)
  show ?case
    by (simp add: kv Cons.IH step[unfolded kv] w AList.dom_update)
qed

lemma select_urls_distinct:
  "distinct (map fst acc) \<Longrightarrow> distinct (map fst (select_urls sel entries acc))"
proof (induction entries arbitrary: acc)
  case Nil
  then show ?case by simp
next
  case (Cons kv entries)
  obtain key url where kv: "kv = (key, url)" by (cases kv)
  show ?case
    using Cons.prems unfolding kv select_urls.simps
    by (auto intro!: Cons.IH AList.distinct_update)
qed

lemma select_urls_empty_filter: "select_urls (Some []) entries acc = acc"
  by (induction entries arbitrary: acc) (auto simp: wanted_def)

lemma attempted_append: "attempted (xs @ ys) = attempted xs @ attempted ys"
  by (induction xs rule: attempted.induct) simp_all

lemma attempted_write_chunks: "attempted (snd (write_chunks pb cs)) = []"
  by (induction pb cs rule: write_chunks.induct) (auto split: prod.splits)

lemma attempted_try_block: "attempted (snd (try_block te url p sp)) = []"
  using attempted_write_chunks[of "sp \<and> 0 < (case content_length te of Integer n \<Rightarrow> n | _ \<Rightarrow> 0)" "body te"]
  by (auto simp: try_block_def Let_def total_size_of_def attempted_append
           split: option.splits sum.splits prod.splits header.splits)

lemma attempted_download_file: "attempted (snd (download_file te url lp cs sp)) = []"
  using attempted_try_block[of te url "Path lp" sp]
  by (auto simp: download_file_def Let_def attempted_append
           split: option.splits sum.splits prod.splits)



lemma download_file_raises:
  assumes "fst (download_file te url lp cs sp) = Inl e"
  shows "(e = OSError \<and> mkdir_fails te)
       \<or> ((e = ValueError \<or> e = OverflowError) \<and> \<not> usable_length (content_length te))"
proof (cases "mkdir_fails te")
  case True
  with assms show ?thesis by (simp add: download_file_def Let_def)
next
  case False
  obtain r evs where tb: "try_block te url (Path lp) sp = (r, evs)"
    by (cases "try_block te url (Path lp) sp")
  from assms False tb obtain e' where r: "r = Inl e'"
    by (cases r) (auto simp: download_file_def Let_def)
  from assms False tb r have "except_clauses e' url (Path lp) = None \<and> e' = e"
    by (auto simp: download_file_def Let_def split: option.splits)
  then have "\<not> is_IOError e" and "e' = e"
    by (auto simp: except_clauses_None)
  moreover have "is_IOError e' \<or> ((e' = ValueError \<or> e' = OverflowError) \<and> \<not> usable_length (content_length te))"
    using try_block_raises[of te url "Path lp" sp e'] tb r by simp
  ultimately show ?thesis by auto
qed

lemma download_loop_attempted:
  "(\<exists>n. attempted (snd (download_loop tr i dir urls res)) = take n (map fst urls))
   \<and> (\<forall>r. fst (download_loop tr i dir urls res) = Inr r \<longrightarrow>
         attempted (snd (download_loop tr i dir urls res)) = map fst urls
       \<and> fst ` set r = fst ` set res \<union> fst ` set urls)"
proof (induction tr i dir urls res rule: download_loop.induct)
  case (1 tr i output_dir results)
  then show ?case by simp
next
  case (2 tr i output_dir file_type url rest results)
  show ?case
  proof (cases url)
    case (YStr u)
    let ?lp = "path_str (path_div output_dir (last (str_split u CHR ''/'')))"
    obtain r evs where df: "download_file (tr i) u ?lp 8192 True = (r, evs)"
      by (cases "download_file (tr i) u ?lp 8192 True")
    have at: "attempted evs = []"
      using attempted_download_file[of "tr i" u ?lp 8192 True] df by simp
    show ?thesis
    proof (cases r)
      case (Inl e)
      have "attempted (snd (download_loop tr i output_dir ((file_type, url) # rest) results))
              = take 1 (map fst ((file_type, url) # rest))"
        using YStr df Inl at by (simp add: Let_def attempted_append)
      moreover have "\<not> (\<exists>r. fst (download_loop tr i output_dir ((file_type, url) # rest) results) = Inr r)"
        using YStr df Inl by (simp add: Let_def)
      ultimately show ?thesis by blast
    next
      case (Inr success)
      obtain r2 evs2 where dl: "download_loop tr (Suc i) output_dir rest
            (AList.update file_type success results) = (r2, evs2)"
        by (cases "download_loop tr (Suc i) output_dir rest (AList.update file_type success results)")
      have IH: "(\<exists>n. attempted evs2 = take n (map fst rest))
         \<and> (\<forall>r. r2 = Inr r \<longrightarrow> attempted evs2 = map fst rest
               \<and> fst ` set r = fst ` set (AList.update file_type success results) \<union> fst ` set rest)"
        using "2.IH"[OF YStr refl refl refl df[symmetric] Inr] dl by simp
      have res: "download_loop tr i output_dir ((file_type, url) # rest) results
          = (r2, [Log Info (Downloading file_type (last (str_split u CHR ''/''))), Log Debug (UrlLine u),
                  Log Debug (DestinationLine (path_div output_dir (last (str_split u CHR ''/''))))] @ evs @ evs2)"
        using YStr df Inr dl by (simp add: Let_def)
      from IH obtain n where n: "attempted evs2 = take n (map fst rest)" by blast
      have "attempted (snd (download_loop tr i output_dir ((file_type, url) # rest) results))
              = take (Suc n) (map fst ((file_type, url) # rest))"
        unfolding res by (simp add: attempted_append at n)
      moreover have "\<forall>r. fst (download_loop tr i output_dir ((file_type, url) # rest) results) = Inr r \<longrightarrow>
         attempted (snd (download_loop tr i output_dir ((file_type, url) # rest) results)) = map fst ((file_type, url) # rest)
       \<and> fst ` set r = fst ` set results \<union> fst ` set ((file_type, url) # rest)"
        unfolding res using IH by (auto simp: attempted_append at AList.dom_update)
      ultimately show ?thesis by blast
    qed
  qed (simp_all)
qed

lemma download_loop_raises:
  "fst (download_loop tr i dir urls res) = Inl e \<Longrightarrow>
     (e = AttributeError \<and> (\<exists>kv \<in> set urls. \<forall>u. snd kv \<noteq> YStr u))
     \<or> (\<exists>j. (e = OSError \<and> mkdir_fails (tr j))
            \<or> ((e = ValueError \<or> e = OverflowError) \<and> \<not> usable_length (content_length (tr j))))"
proof (induction tr i dir urls res rule: download_loop.induct)
  case (1 tr i output_dir results)
  then show ?case by simp
next
  case (2 tr i output_dir file_type url rest results)
  show ?case
  proof (cases url)
    case (YStr u)
    let ?lp = "path_str (path_div output_dir (last (str_split u CHR ''/'')))"
    obtain r evs where df: "download_file (tr i) u ?lp 8192 True = (r, evs)"
      by (cases "download_file (tr i) u ?lp 8192 True")
    show ?thesis
    proof (cases r)
      case (Inl e')
      then have "e' = e" using "2.prems" YStr df by (simp add: Let_def)
      then have "fst (download_file (tr i) u ?lp 8192 True) = Inl e" using df Inl by simp
      from download_file_raises[OF this] show ?thesis by blast
    next
      case (Inr success)
      have "fst (download_loop tr (Suc i) output_dir rest (AList.update file_type success results)) = Inl e"
        using "2.prems" YStr df Inr by (simp add: Let_def split: prod.splits)
      from "2.IH"[OF YStr refl refl refl df[symmetric] Inr this] show ?thesis by auto
    qed
  next
    case YNull
    with "2.prems" show ?thesis by auto
  next
    case (YMap m)
    with "2.prems" show ?thesis by auto
  next
    case YOther
    with "2.prems" show ?thesis by auto
  qed
qed

lemma download_loop_returns:
  assumes "\<forall>kv \<in> set urls. \<exists>u. snd kv = YStr u"
    and "\<forall>j. \<not> mkdir_fails (tr j) \<and> usable_length (content_length (tr j))"
  shows "\<exists>r. fst (download_loop tr i dir urls res) = Inr r"
proof (cases "fst (download_loop tr i dir urls res)")
  case (Inl e)
  from download_loop_raises[OF this] assms show ?thesis by auto
next
  case (Inr r)
  then show ?thesis by blast
qed



lemma attempted_summary_log: "attempted (summary_log results) = []"
  by (simp add: summary_log_def Let_def)

text \<open>The shape of a run once the configuration and the directory are resolved.\<close>

lemma run_unfold:
  assumes "get_insee_urls (files w) config = Inr (YMap entries)"
    and "get_data_paths (files w) config = Inr dp"
    and "resolve_output_dir (now w) dp out = Inr dir"
    and "\<not> dest_mkdir_fails w"
    and "download_loop (transfers w) 0 dir (select_urls sel entries []) [] = (r, evs)"
  shows "download_insee_files w config out sel =
     (r, [MkDir dir, Log Info (StartingBatch dir), Log Info TimestampLine,
          Log Info (FilesToDownload (map fst (select_urls sel entries [])))] @ evs @
         (case r of Inl e \<Rightarrow> [] | Inr results \<Rightarrow> summary_log results))"
  using assms by (cases r) (simp_all add: download_insee_files_def dict_items_def Let_def)

lemma sample_urls: "get_insee_urls fs (config_with urls) = Inr (YMap urls)"
  by (simp add: get_insee_urls_def config_or_default_def dict_get_def config_with_def)

lemma sample_paths:
  "get_data_paths fs (config_with urls) = Inr (YMap [(''bronze'', YStr ''/data/bronze'')])"
  by (simp add: get_data_paths_def config_or_default_def dict_get_def config_with_def)

lemma resolve_given: "resolve_output_dir t dp (Some d) = Inr (Path d)"
  by (simp add: resolve_output_dir_def)


section \<open>The batch\<close>

text \<open>
  C10. With \<open>files_to_download\<close> equal to the empty list no entry is selected: no
  request is sent, no transfer is announced, and a report that is returned is empty.
  Whenever the configuration and the destination directory resolve and the directory can
  be created, the call returns the empty report and its first effect is the creation of
  that directory.
\<close>

theorem empty_selection_downloads_nothing:
  "requests_sent (snd (download_insee_files w config out (Some []))) = []
   \<and> attempted (snd (download_insee_files w config out (Some []))) = []
   \<and> (\<forall>report. fst (download_insee_files w config out (Some [])) = Inr report \<longrightarrow> report = [])
   \<and> (\<forall>entries dp dir. get_insee_urls (files w) config = Inr (YMap entries)
          \<and> get_data_paths (files w) config = Inr dp
          \<and> resolve_output_dir (now w) dp out = Inr dir \<and> \<not> dest_mkdir_fails w
        \<longrightarrow> fst (download_insee_files w config out (Some [])) = Inr []
          \<and> hd (snd (download_insee_files w config out (Some []))) = MkDir dir)"
  by (auto simp: download_insee_files_def select_urls_empty_filter dict_items_def Let_def
        summary_log_def split: sum.splits yaml.splits)


theorem empty_selection_downloads_nothing_witness:
  "get_insee_urls (files steady_env) (config_with colliding_urls) = Inr (YMap colliding_urls)
   \<and> \<not> dest_mkdir_fails steady_env
   \<and> fst (download_insee_files steady_env (config_with colliding_urls) (Some ''/tmp/out'')
            (Some [])) = Inr []
   \<and> hd (snd (download_insee_files steady_env (config_with colliding_urls) (Some ''/tmp/out'')
            (Some []))) = MkDir (Path ''/tmp/out'')"
proof -
  have m: "\<not> dest_mkdir_fails steady_env" by (simp add: steady_env_def)
  show ?thesis
    using empty_selection_downloads_nothing[of steady_env "config_with colliding_urls"
        "Some ''/tmp/out''"]
      sample_urls[of "files steady_env" colliding_urls]
      sample_paths[of "files steady_env" colliding_urls]
      resolve_given[of "now steady_env" "YMap [(''bronze'', YStr ''/data/bronze'')]" "''/tmp/out''"]
      m
    by simp
qed











text \<open>
  With the file types as the code derives them, the selection is an intersection: the
  transfers announced are always among the derived types that the supplied list asks
  for, each at most once, and they are exactly those, as are the keys of the report,
  when the call returns.
\<close>

lemma selection_follows_derived_types:
  assumes iu: "get_insee_urls (files w) config = Inr (YMap entries)"
  shows "set (attempted (snd (download_insee_files w config out sel)))
           \<subseteq> derived_types entries \<inter> requested sel
       \<and> distinct (attempted (snd (download_insee_files w config out sel)))
       \<and> (\<forall>report. fst (download_insee_files w config out sel) = Inr report \<longrightarrow>
             set (attempted (snd (download_insee_files w config out sel)))
               = derived_types entries \<inter> requested sel
           \<and> fst ` set report = derived_types entries \<inter> requested sel)
       \<and> (sel = None \<longrightarrow> derived_types entries \<inter> requested sel = derived_types entries)"
proof -
  let ?R = "download_insee_files w config out sel"
  let ?urls = "select_urls sel entries []"
  have keys: "set (map fst ?urls) = derived_types entries \<inter> requested sel"
    using select_urls_keys[of sel entries "[]"] by simp
  have dist: "distinct (map fst ?urls)"
    using select_urls_distinct[of "[]" sel entries] by simp
  have last: "sel = None \<longrightarrow> derived_types entries \<inter> requested sel = derived_types entries"
    by (simp add: requested_def)
  have "(attempted (snd ?R) = [] \<and> (\<forall>report. fst ?R \<noteq> Inr report))
      \<or> (\<exists>dp dir. get_data_paths (files w) config = Inr dp
            \<and> resolve_output_dir (now w) dp out = Inr dir \<and> \<not> dest_mkdir_fails w)"
    using iu by (auto simp: download_insee_files_def split: sum.splits)
  then consider (early) "attempted (snd ?R) = []" "\<forall>report. fst ?R \<noteq> Inr report"
    | (loop) dp dir where "get_data_paths (files w) config = Inr dp"
        "resolve_output_dir (now w) dp out = Inr dir" "\<not> dest_mkdir_fails w"
    by blast
  then show ?thesis
  proof cases
    case early
    then show ?thesis using last by simp
  next
    case loop
    obtain r evs where dl: "download_loop (transfers w) 0 dir ?urls [] = (r, evs)"
      by (cases "download_loop (transfers w) 0 dir ?urls []")
    have R: "?R = (r, [MkDir dir, Log Info (StartingBatch dir), Log Info TimestampLine,
          Log Info (FilesToDownload (map fst ?urls))] @ evs @
         (case r of Inl e \<Rightarrow> [] | Inr results \<Rightarrow> summary_log results))"
      using run_unfold[OF iu loop dl] .
    have att: "attempted (snd ?R) = attempted evs"
      unfolding R by (cases r) (simp_all add: attempted_append attempted_summary_log)
    have "(\<exists>n. attempted evs = take n (map fst ?urls))
        \<and> (\<forall>rep. r = Inr rep \<longrightarrow> attempted evs = map fst ?urls
                   \<and> fst ` set rep = fst ` set ([] :: bool dict) \<union> fst ` set ?urls)"
      using download_loop_attempted[of "transfers w" 0 dir ?urls "[]"]
      unfolding dl fst_conv snd_conv .
    then obtain n where n: "attempted evs = take n (map fst ?urls)"
      and full: "\<forall>rep. r = Inr rep \<longrightarrow> attempted evs = map fst ?urls
                   \<and> fst ` set rep = fst ` set ([] :: bool dict) \<union> fst ` set ?urls"
      by blast
    have "set (attempted (snd ?R)) \<subseteq> derived_types entries \<inter> requested sel"
      unfolding att n using keys set_take_subset[of n "map fst ?urls"] by blast
    moreover have "distinct (attempted (snd ?R))"
      unfolding att n using dist by (rule distinct_take)
    moreover have "\<forall>report. fst ?R = Inr report \<longrightarrow>
             set (attempted (snd ?R)) = derived_types entries \<inter> requested sel
           \<and> fst ` set report = derived_types entries \<inter> requested sel"
      unfolding att using full keys by (auto simp: R)
    ultimately show ?thesis using last by blast
  qed
qed


lemma nested_run:
  "download_insee_files steady_env (config_with nested_urls) None (Some [''x_url'']) =
     (Inr [],
      [MkDir \<lparr>p_root = ''/'', p_parts = [''data'', ''bronze'', ''2026-03'']\<rparr>,
       Log Info (StartingBatch \<lparr>p_root = ''/'', p_parts = [''data'', ''bronze'', ''2026-03'']\<rparr>),
       Log Info TimestampLine,
       Log Info (FilesToDownload []),
       Log Info Rule,
       Log Info (Summary 0 0),
       Log Info Rule])"
  by code_simp

lemma nested_convention_types:
  "configured_types nested_urls \<inter> requested (Some [''x_url'']) = {''x_url''}"
proof -
  have "endswith ''x_url_url'' ''_url''"
    by (simp add: endswith_def)
  then have "{key \<in> fst ` set nested_urls. endswith key ''_url''} = {''x_url_url''}"
    by (auto simp: nested_urls_def)
  then have "configured_types nested_urls = {''x_url''}"
    by (simp add: configured_types_def convention_file_type_def)
  then show ?thesis by (simp add: requested_def)
qed

lemma colliding_convention_types:
  "configured_types colliding_urls \<inter> requested None = {''x'', ''x_url''}"
proof -
  have "endswith ''x_url'' ''_url''" "endswith ''x_url_url'' ''_url''"
    by (simp_all add: endswith_def)
  then have "{key \<in> fst ` set colliding_urls. endswith key ''_url''} = {''x_url'', ''x_url_url''}"
    by (auto simp: colliding_urls_def)
  then have "configured_types colliding_urls = {''x'', ''x_url''}"
    by (simp add: configured_types_def convention_file_type_def)
  then show ?thesis by (simp add: requested_def)
qed

text \<open>
  C4 on the code. Under the convention \<open><file_type>_url\<close> the key \<open>x_url_url\<close>
  stands for the file type \<open>x_url\<close>, which the list \<open>[x_url]\<close> asks for: the
  file type is in both the configuration and the list, yet the run sends no request,
  announces no transfer and returns an empty report. With no list, the configuration
  with the keys \<open>x_url\<close> and \<open>x_url_url\<close> holds the two file types \<open>x\<close> and
  \<open>x_url\<close>, and a single request is sent: an entry is not kept.
\<close>

theorem filter_misses_convention_type:
  "configured_types nested_urls \<inter> requested (Some [''x_url'']) = {''x_url''}
   \<and> requests_sent (snd (download_insee_files steady_env (config_with nested_urls) None
                            (Some [''x_url'']))) = []
   \<and> attempted (snd (download_insee_files steady_env (config_with nested_urls) None
                        (Some [''x_url'']))) = []
   \<and> fst (download_insee_files steady_env (config_with nested_urls) None (Some [''x_url'']))
       = Inr []
   \<and> configured_types colliding_urls \<inter> requested None = {''x'', ''x_url''}
   \<and> requests_sent (snd (download_insee_files steady_env (config_with colliding_urls) None None))
       = [''http://h/two.zip'']"
proof -
  have a: "requests_sent (snd (download_insee_files steady_env (config_with nested_urls) None
                            (Some [''x_url'']))) = []"
    by (simp add: nested_run)
  have b: "attempted (snd (download_insee_files steady_env (config_with nested_urls) None
                        (Some [''x_url'']))) = []"
    by (simp add: nested_run)
  have c: "fst (download_insee_files steady_env (config_with nested_urls) None (Some [''x_url'']))
       = Inr []"
    by (simp add: nested_run)
  have d: "requests_sent (snd (download_insee_files steady_env (config_with colliding_urls) None None))
       = [''http://h/two.zip'']"
    by (simp add: colliding_run)
  from nested_convention_types a b c colliding_convention_types d
  show ?thesis by (intro conjI)
qed

section \<open>The number of transfers\<close>

lemma download_loop_distinct:
  "distinct (map fst res) \<Longrightarrow> fst (download_loop tr i dir urls res) = Inr r
     \<Longrightarrow> distinct (map fst r)"
proof (induction tr i dir urls res rule: download_loop.induct)
  case (1 tr i output_dir results)
  then show ?case by simp
next
  case (2 tr i output_dir file_type url rest results)
  show ?case
  proof (cases url)
    case (YStr u)
    let ?lp = "path_str (path_div output_dir (last (str_split u CHR ''/'')))"
    obtain r1 evs where df: "download_file (tr i) u ?lp 8192 True = (r1, evs)"
      by (cases "download_file (tr i) u ?lp 8192 True")
    show ?thesis
    proof (cases r1)
      case (Inl e)
      with "2.prems" YStr df show ?thesis by (simp add: Let_def)
    next
      case (Inr success)
      have d: "distinct (map fst (AList.update file_type success results))"
        using "2.prems"(1) by (rule AList.distinct_update)
      have "fst (download_loop tr (Suc i) output_dir rest (AList.update file_type success results)) = Inr r"
        using "2.prems"(2) YStr df Inr by (simp add: Let_def split: prod.splits)
      from "2.IH"[OF YStr refl refl refl df[symmetric] Inr d this] show ?thesis .
    qed
  next
    case YNull
    with "2.prems" show ?thesis by simp
  next
    case (YMap m)
    with "2.prems" show ?thesis by simp
  next
    case YOther
    with "2.prems" show ?thesis by simp
  qed
qed

lemma suffixed_count:
  assumes "distinct (map fst entries)"
    and "inj_on file_type_of {key \<in> fst ` set entries. endswith key ''_url''}"
  shows "card (derived_types entries)
           = length (filter (\<lambda>kv. endswith (fst kv) ''_url'') entries)"
proof -
  have "card (derived_types entries) = card {key \<in> fst ` set entries. endswith key ''_url''}"
    unfolding derived_types_def using assms(2) by (rule card_image)
  also have "{key \<in> fst ` set entries. endswith key ''_url''}
      = set (map fst (filter (\<lambda>kv. endswith (fst kv) ''_url'') entries))"
    by auto
  also have "card \<dots> = length (map fst (filter (\<lambda>kv. endswith (fst kv) ''_url'') entries))"
    using assms(1) by (intro distinct_card) (simp add: distinct_map_filter)
  finally show ?thesis by simp
qed

text \<open>
  Where the keys ending in \<open>_url\<close> give pairwise different file types, a run
  without filter that returns announces one transfer and reports one entry per such key.
\<close>

lemma report_size_without_collisions:
  assumes iu: "get_insee_urls (files w) config = Inr (YMap entries)"
    and dk: "distinct (map fst entries)"
    and inj: "inj_on file_type_of {key \<in> fst ` set entries. endswith key ''_url''}"
    and ret: "fst (download_insee_files w config out None) = Inr report"
  shows "length report = length (filter (\<lambda>kv. endswith (fst kv) ''_url'') entries)
       \<and> length (attempted (snd (download_insee_files w config out None)))
           = length (filter (\<lambda>kv. endswith (fst kv) ''_url'') entries)"
proof -
  let ?R = "download_insee_files w config out None"
  let ?urls = "select_urls None entries []"
  from iu ret obtain dp dir where dp: "get_data_paths (files w) config = Inr dp"
    and dir: "resolve_output_dir (now w) dp out = Inr dir" and mk: "\<not> dest_mkdir_fails w"
    by (auto simp: download_insee_files_def split: sum.splits if_splits)
  obtain r evs where dl: "download_loop (transfers w) 0 dir ?urls [] = (r, evs)"
    by (cases "download_loop (transfers w) 0 dir ?urls []")
  note R = run_unfold[OF iu dp dir mk dl]
  from R ret have r: "r = Inr report" by simp
  have keys: "set (map fst ?urls) = derived_types entries"
    using select_urls_keys[of None entries "[]"] by (simp add: requested_def)
  have du: "distinct (map fst ?urls)"
    using select_urls_distinct[of "[]" None entries] by simp
  have "(\<exists>n. attempted evs = take n (map fst ?urls))
        \<and> (\<forall>rep. r = Inr rep \<longrightarrow> attempted evs = map fst ?urls
                   \<and> fst ` set rep = fst ` set ([] :: bool dict) \<union> fst ` set ?urls)"
    using download_loop_attempted[of "transfers w" 0 dir ?urls "[]"]
    unfolding dl fst_conv snd_conv .
  with r have att: "attempted evs = map fst ?urls" and rk: "fst ` set report = fst ` set ?urls"
    by simp_all
  have dr: "distinct (map fst report)"
    using download_loop_distinct[of "[]" "transfers w" 0 dir ?urls report] dl r by simp
  have n: "card (derived_types entries)
      = length (filter (\<lambda>kv. endswith (fst kv) ''_url'') entries)"
    using dk inj by (rule suffixed_count)
  have "length report = card (set (map fst report))"
    using dr by (simp add: distinct_card del: set_map)
  also have "\<dots> = card (derived_types entries)"
    using rk keys by simp
  finally have a: "length report = length (filter (\<lambda>kv. endswith (fst kv) ''_url'') entries)"
    using n by simp
  have "attempted (snd ?R) = attempted evs"
    unfolding R r by (simp add: attempted_append attempted_summary_log)
  then have "length (attempted (snd ?R)) = card (set (map fst ?urls))"
    using att du by (simp add: distinct_card del: set_map)
  then have b: "length (attempted (snd ?R))
      = length (filter (\<lambda>kv. endswith (fst kv) ''_url'') entries)"
    using keys n by simp
  from a b show ?thesis by (rule conjI)
qed

section \<open>The destination directory\<close>

lemma digit_char: "(d::nat) < 10 \<Longrightarrow> char_of (48 + d) \<in> set ''0123456789''"
proof -
  assume "d < 10"
  then have "d \<in> {0, 1, 2, 3, 4, 5, 6, 7, 8, 9}" by auto
  then show ?thesis by (elim insertE emptyE; hypsubst; code_simp)
qed

lemma str_of_nat_digits: "set (str_of_nat n) \<subseteq> set ''0123456789''"
proof (induction n rule: str_of_nat.induct)
  case (1 n)
  show ?case
  proof (cases "n < 10")
    case True
    then show ?thesis using digit_char[of n] by (subst str_of_nat.simps) simp
  next
    case False
    have "n mod 10 < 10" by simp
    from digit_char[OF this] "1.IH"[OF False] False show ?thesis
      by (subst str_of_nat.simps) simp
  qed
qed

lemma str_of_nat_nonempty: "str_of_nat n \<noteq> []"
  by (subst str_of_nat.simps) simp

lemma str_of_nat_length: "n < 10 ^ k \<Longrightarrow> 0 < k \<Longrightarrow> length (str_of_nat n) \<le> k"
proof (induction n arbitrary: k rule: str_of_nat.induct)
  case (1 n)
  show ?case
  proof (cases "n < 10")
    case True
    then show ?thesis using "1.prems" by (subst str_of_nat.simps) simp
  next
    case False
    with "1.prems" obtain k' where k: "k = Suc k'" by (cases k) auto
    with False "1.prems" have "0 < k'" by (cases k') auto
    moreover have "n div 10 < 10 ^ k'" using "1.prems" k by (simp add: less_mult_imp_div_less mult.commute)
    ultimately have "length (str_of_nat (n div 10)) \<le> k'" using "1.IH"[OF False] by blast
    then show ?thesis using False k by (subst str_of_nat.simps) simp
  qed
qed

lemma zero_pad_length: "n < 10 ^ k \<Longrightarrow> 0 < k \<Longrightarrow> length (zero_pad k n) = k"
  using str_of_nat_length[of n k] by (simp add: zero_pad_def)

lemma zero_pad_digits: "set (zero_pad k n) \<subseteq> set ''0123456789''"
  using str_of_nat_digits[of n] by (auto simp: zero_pad_def)

lemma str_split_no_sep: "sep \<notin> set s \<Longrightarrow> str_split s sep = [s]"
  by (induction s) auto

lemma Path_single:
  assumes "CHR ''/'' \<notin> set s" and "s \<noteq> []" and "s \<noteq> ''.''"
  shows "Path s = \<lparr>p_root = [], p_parts = [s]\<rparr>"
proof -
  have "parse_root s = []"
    using assms by (cases s) (auto simp: parse_root_def startswith_def)
  then show ?thesis using assms by (simp add: Path_def str_split_no_sep)
qed

lemma strftime_Y_m_component:
  "Path (strftime_Y_m t) = \<lparr>p_root = [], p_parts = [strftime_Y_m t]\<rparr>"
proof (rule Path_single)
  show "CHR ''/'' \<notin> set (strftime_Y_m t)"
    using zero_pad_digits[of 4 "year t"] zero_pad_digits[of 2 "month t"]
    by (auto simp: strftime_Y_m_def)
  show "strftime_Y_m t \<noteq> []" by (simp add: strftime_Y_m_def)
  have "CHR ''-'' \<in> set (strftime_Y_m t)" by (simp add: strftime_Y_m_def)
  then show "strftime_Y_m t \<noteq> ''.''" by auto
qed

lemma path_div_timestamp:
  "path_div p (strftime_Y_m t) = p\<lparr>p_parts := p_parts p @ [strftime_Y_m t]\<rparr>"
  by (simp add: path_div_def strftime_Y_m_component)

text \<open>
  C5. Once the configuration is resolved, the first effect of the call is the creation
  (with parents) of the destination directory: the given \<open>output_dir\<close> when there is
  one, and otherwise the \<open>bronze\<close> path extended by the single component made of the
  year in four digits, a hyphen and the month, which takes two digits. Every request
  comes after it, and none is sent when the creation fails.
\<close>

theorem destination_directory_created_first:
  assumes "get_insee_urls (files w) config = Inr iu"
    and "get_data_paths (files w) config = Inr dp"
  shows "(\<forall>d. out = Some d \<longrightarrow>
            (\<exists>evs. snd (download_insee_files w config out sel) = MkDir (Path d) # evs))
       \<and> (\<forall>b. out = None \<and> subscript dp ''bronze'' = Inr (YStr b) \<longrightarrow>
            (\<exists>evs. snd (download_insee_files w config out sel)
               = MkDir ((Path b)\<lparr>p_parts := p_parts (Path b) @
                           [zero_pad 4 (year (now w)) @ ''-'' @ zero_pad 2 (month (now w))]\<rparr>)
                 # evs))
       \<and> (month (now w) < 100 \<longrightarrow> length (zero_pad 2 (month (now w))) = 2)
       \<and> (dest_mkdir_fails w \<longrightarrow>
             requests_sent (snd (download_insee_files w config out sel)) = []
           \<and> attempted (snd (download_insee_files w config out sel)) = [])"
proof -
  have head: "\<exists>evs. snd (download_insee_files w config out sel) = MkDir dir # evs"
    if "resolve_output_dir (now w) dp out = Inr dir" for dir
    using assms that
    by (auto simp: download_insee_files_def Let_def split: sum.splits prod.splits)
  have given: "resolve_output_dir (now w) dp (Some d) = Inr (Path d)" for d
    by (simp add: resolve_output_dir_def)
  have dflt: "resolve_output_dir (now w) dp None
      = Inr ((Path b)\<lparr>p_parts := p_parts (Path b) @
                           [zero_pad 4 (year (now w)) @ ''-'' @ zero_pad 2 (month (now w))]\<rparr>)"
    if "subscript dp ''bronze'' = Inr (YStr b)" for b
    using that path_div_timestamp[of "Path b" "now w"]
    by (simp add: resolve_output_dir_def path_of_def Let_def strftime_Y_m_def)
  have pad: "month (now w) < 100 \<longrightarrow> length (zero_pad 2 (month (now w))) = 2"
    using zero_pad_length[of "month (now w)" 2] by simp
  have fail: "dest_mkdir_fails w \<longrightarrow>
             requests_sent (snd (download_insee_files w config out sel)) = []
           \<and> attempted (snd (download_insee_files w config out sel)) = []"
    using assms by (auto simp: download_insee_files_def split: sum.splits)
  show ?thesis using head given dflt pad fail by metis
qed

lemma sample_month:
  "zero_pad 4 (year (now steady_env)) @ ''-'' @ zero_pad 2 (month (now steady_env)) = ''2026-03''"
  by code_simp

lemma sample_bronze: "Path ''/data/bronze'' = \<lparr>p_root = ''/'', p_parts = [''data'', ''bronze'']\<rparr>"
  by code_simp

lemma sample_bronze_entry:
  "subscript (YMap [(''bronze'', YStr ''/data/bronze'')]) ''bronze'' = Inr (YStr ''/data/bronze'')"
  by (simp add: subscript_def)

lemma sample_month_small: "month (now steady_env) < 100"
  by (simp add: steady_env_def)

theorem destination_directory_created_first_witness:
  "get_insee_urls (files steady_env) (config_with single_url) = Inr (YMap single_url)
   \<and> subscript (YMap [(''bronze'', YStr ''/data/bronze'')]) ''bronze'' = Inr (YStr ''/data/bronze'')
   \<and> month (now steady_env) < 100
   \<and> length (zero_pad 2 (month (now steady_env))) = 2
   \<and> (\<exists>evs. snd (download_insee_files steady_env (config_with single_url) None None)
         = MkDir \<lparr>p_root = ''/'', p_parts = [''data'', ''bronze'', ''2026-03'']\<rparr> # evs)
   \<and> (\<exists>evs. snd (download_insee_files steady_env (config_with single_url) (Some ''/tmp/out'') None)
         = MkDir (Path ''/tmp/out'') # evs)"
proof -
  note dflt = destination_directory_created_first[where w = steady_env
      and config = "config_with single_url" and out = None and sel = None,
      OF sample_urls sample_paths]
  note given = destination_directory_created_first[where w = steady_env
      and config = "config_with single_url" and out = "Some ''/tmp/out''" and sel = None,
      OF sample_urls sample_paths]
  have pad: "length (zero_pad 2 (month (now steady_env))) = 2"
    by (rule dflt[THEN conjunct2, THEN conjunct2, THEN conjunct1, rule_format,
          OF sample_month_small])
  have "\<exists>evs. snd (download_insee_files steady_env (config_with single_url) None None)
         = MkDir ((Path ''/data/bronze'')\<lparr>p_parts := p_parts (Path ''/data/bronze'') @
               [zero_pad 4 (year (now steady_env)) @ ''-'' @ zero_pad 2 (month (now steady_env))]\<rparr>)
           # evs"
    by (rule dflt[THEN conjunct2, THEN conjunct1, rule_format,
          OF conjI[OF refl sample_bronze_entry]])
  then have a: "\<exists>evs. snd (download_insee_files steady_env (config_with single_url) None None)
         = MkDir \<lparr>p_root = ''/'', p_parts = [''data'', ''bronze'', ''2026-03'']\<rparr> # evs"
    unfolding sample_month sample_bronze by simp
  have b: "\<exists>evs. snd (download_insee_files steady_env (config_with single_url)
             (Some ''/tmp/out'') None) = MkDir (Path ''/tmp/out'') # evs"
    by (rule given[THEN conjunct1, rule_format, OF refl])
  from sample_urls[of "files steady_env" single_url] sample_bronze_entry sample_month_small
    pad a b
  show ?thesis by (intro conjI) (assumption+)
qed

section \<open>Logger setup\<close>























end
